theory Spec2Isabelle
  imports Main "HOL-Library.Sublist"
begin

section \<open>Strings\<close>

text \<open>
  A Python \<open>str\<close> is a sequence of Unicode code points, so a string is a list of
  code points (natural numbers); \<open>ustr\<close> reads an ASCII literal. The bullet glyph of
  \<open>to_markdown\<close> is U+2022, one code point.
\<close>

type_synonym ustring = "nat list"

definition ustr :: "string \<Rightarrow> ustring" where
  "ustr s = map of_char s"

definition bullet :: nat where
  "bullet = 8226"

text \<open>
  \<open>str.replace(old, new)\<close>: occurrences of \<open>old\<close> are found from the left and do
  not overlap; an empty \<open>old\<close> matches before every code point and at the end.
\<close>

function py_replace :: "'a list \<Rightarrow> 'a list \<Rightarrow> 'a list \<Rightarrow> 'a list" where
  "py_replace old new s =
     (if old = [] then new @ concat (map (\<lambda>c. c # new) s)
      else if s = [] then []
      else if take (length old) s = old
        then new @ py_replace old new (drop (length old) s)
      else hd s # py_replace old new (tl s))"
  by pat_completeness auto
termination
  by (relation "measure (\<lambda>(old, new, s). length s)") auto

declare py_replace.simps [simp del]

text \<open>
  \<open>str.splitlines(keepends=True)\<close>: a line ends at a line boundary, which stays
  with the line; CR LF is one boundary; the empty string has no line, and a string
  that ends in a boundary has no empty last line. The boundaries are LF, VT, FF, CR,
  FS, GS, RS, NEL, LS and PS.
\<close>

definition is_linebreak :: "nat \<Rightarrow> bool" where
  "is_linebreak c = (c \<in> {10, 11, 12, 13, 28, 29, 30, 133, 8232, 8233})"

fun splitlines_from :: "ustring \<Rightarrow> ustring \<Rightarrow> ustring list" where
  "splitlines_from cur [] = (if cur = [] then [] else [cur])"
| "splitlines_from cur [c] = [cur @ [c]]"
| "splitlines_from cur (c # d # s) =
     (if c = 13 \<and> d = 10 then (cur @ [c, d]) # splitlines_from [] s
      else if is_linebreak c then (cur @ [c]) # splitlines_from [] (d # s)
      else splitlines_from (cur @ [c]) (d # s))"

definition splitlines_keepends :: "ustring \<Rightarrow> ustring list" where
  "splitlines_keepends s = splitlines_from [] s"

text \<open>
  \<open>textwrap.indent(text, prefix, predicate)\<close>: the prefix goes before every line
  of \<open>text.splitlines(True)\<close> that the predicate accepts, and the lines are joined
  again.
\<close>

definition indent :: "ustring \<Rightarrow> ustring \<Rightarrow> (ustring \<Rightarrow> bool) \<Rightarrow> ustring" where
  "indent txt pfx predicate =
     concat (map (\<lambda>line. if predicate line then pfx @ line else line)
       (splitlines_keepends txt))"

text \<open>
  \<open>str.strip()\<close> removes leading and trailing whitespace, the code points for which
  \<open>str.isspace\<close> holds.
\<close>

definition is_space :: "nat \<Rightarrow> bool" where
  "is_space c =
     (c \<in> {9, 10, 11, 12, 13, 28, 29, 30, 31, 32, 133, 160, 5760,
            8232, 8233, 8239, 8287, 12288}
      \<or> (8192 \<le> c \<and> c \<le> 8202))"

definition strip :: "ustring \<Rightarrow> ustring" where
  "strip s = rev (dropWhile is_space (rev (dropWhile is_space s)))"

text \<open>
  \<open>str.lower()\<close>: on a string of ASCII code points only the letters A to Z change.
  For a string with a code point outside ASCII the result comes from the Unicode case
  mapping of the Python runtime, a table that is no part of the program: it is the
  parameter \<open>tbl\<close>.
\<close>

definition ascii_lower :: "nat \<Rightarrow> nat" where
  "ascii_lower c = (if 65 \<le> c \<and> c \<le> 90 then c + 32 else c)"

definition lower :: "(ustring \<Rightarrow> ustring) \<Rightarrow> ustring \<Rightarrow> ustring" where
  "lower tbl s = (if list_all (\<lambda>c. c < 128) s then map ascii_lower s else tbl s)"

text \<open>\<open>sep.join(xs)\<close>.\<close>

fun join :: "ustring \<Rightarrow> ustring list \<Rightarrow> ustring" where
  "join sep [] = []"
| "join sep [x] = x"
| "join sep (x # y # ys) = x @ sep @ join sep (y # ys)"

section \<open>The formatter\<close>

definition to_markdown :: "ustring \<Rightarrow> ustring" where
  "to_markdown txt =
     indent (py_replace [bullet] (ustr ''  *'') txt) (ustr ''> '') (\<lambda>_. True)"

section \<open>The program and its environment\<close>

text \<open>
  What the program does to the outside is a list of events, in the order of the calls.
  An exception is a value: \<open>RuntimeError\<close> and \<open>OtherException\<close> are instances of
  Python's \<open>Exception\<close> and carry \<open>str(e)\<close>; \<open>KeyboardInterrupt\<close> is not an
  instance of \<open>Exception\<close>.
\<close>

datatype event =
    Configure ustring
  | ListModels
  | GenerativeModel ustring ustring
  | StartChat
  | Input ustring
  | SendMessage ustring
  | Print ustring
  | PrintErr ustring

datatype exn = RuntimeError ustring | OtherException ustring | KeyboardInterrupt

text \<open>
  One call of \<open>input()\<close> returns a line (without its newline), or raises
  \<open>EOFError\<close> or \<open>KeyboardInterrupt\<close>. One call of \<open>chat.send_message\<close> followed by
  the read of \<open>response.text\<close> yields the text, or the read raises an exception, or
  the call raises an exception, or the call is interrupted.
\<close>

datatype stdin_event = Line ustring | EndOfInput | Interrupt

datatype send_outcome =
    Reply ustring
  | ReplyTextRaises ustring
  | SendRaises ustring
  | SendInterrupted

text \<open>
  The environment of one run: the process environment, the provider (the outcome of
  the model listing, \<open>Inl\<close> the message of the exception it raises; the two
  constructors of the session, \<open>Inl\<close> likewise; and the send operation on a session
  state, which returns the state the session is left in), and the runtime's case
  mapping. The session state \<open>'s\<close> and the model object \<open>'m\<close> are the provider's.
\<close>

record ('m, 's) world =
  environ :: "ustring \<rightharpoonup> ustring"
  list_models :: "ustring + ustring list"
  generative_model :: "ustring \<Rightarrow> ustring \<Rightarrow> ustring + 'm"
  start_chat :: "'m \<Rightarrow> ustring + 's"
  send_message :: "'s \<Rightarrow> ustring \<Rightarrow> send_outcome \<times> 's"
  unicode_lower :: "ustring \<Rightarrow> ustring"

subsection \<open>configure\_genai\<close>

definition configure_genai :: "('m, 's) world \<Rightarrow> event list \<times> exn option" where
  "configure_genai w =
     (case environ w (ustr ''GOOGLE_API_KEY'') of
        None \<Rightarrow> ([], Some (RuntimeError
          (ustr ''GOOGLE_API_KEY not set. Set it in your environment or use a .env file.'')))
      | Some api_key \<Rightarrow>
          if api_key = [] then ([], Some (RuntimeError
            (ustr ''GOOGLE_API_KEY not set. Set it in your environment or use a .env file.'')))
          else ([Configure api_key], None))"

subsection \<open>choose\_model\<close>

definition default_preferred :: ustring where
  "default_preferred = ustr ''gemini-flash-latest''"

definition fallback_candidates :: "ustring list" where
  "fallback_candidates =
     [ustr ''gemini-2.5-flash'', ustr ''gemini-2.5-flash-lite'', ustr ''gemini-flash-latest'']"

fun first_candidate :: "ustring list \<Rightarrow> ustring list \<Rightarrow> ustring option" where
  "first_candidate [] available = None"
| "first_candidate (candidate # rest) available =
     (if candidate \<in> set available then Some candidate
      else first_candidate rest available)"

definition not_available_message :: "ustring \<Rightarrow> ustring list \<Rightarrow> ustring" where
  "not_available_message preferred available =
     ustr ''Preferred model '' @ [39] @ preferred @ [39]
       @ ustr '' not available. Models you can access:'' @ [10]
       @ join [10] available"

definition choose_model :: "('m, 's) world \<Rightarrow> ustring \<Rightarrow> event list \<times> (exn + ustring)" where
  "choose_model w preferred =
     (case list_models w of
        Inl e \<Rightarrow> ([ListModels], Inl (RuntimeError (ustr ''Failed to list models: '' @ e)))
      | Inr available \<Rightarrow>
          ([ListModels],
           if preferred \<in> set available then Inr preferred
           else (case first_candidate fallback_candidates available of
                   Some candidate \<Rightarrow> Inr candidate
                 | None \<Rightarrow>
                     Inl (RuntimeError (not_available_message preferred available)))))"

subsection \<open>run\_chat\_loop\<close>

definition system_instruction :: ustring where
  "system_instruction =
     ustr ''You are an expert AI assistant specializing in Indian law. ''
     @ ustr ''Explain complex legal topics in a clear, simple, and detailed manner ''
     @ ustr ''for a general audience.''"

definition banner :: "event list" where
  "banner =
     [Print ([9878, 65039] @ ustr ''  Legal AI Assistant '' @ [9878, 65039]),
      Print (ustr ''Ask me any question about Indian law. Type '' @ [39] @ ustr ''exit''
             @ [39] @ ustr '' or '' @ [39] @ ustr ''quit'' @ [39] @ ustr '' to end.''),
      Print (replicate 40 45)]"

definition question_prompt :: ustring where
  "question_prompt = ustr ''Your Question: ''"

definition goodbye :: ustring where
  "goodbye = ustr ''Goodbye! '' @ [128075]"

definition send_error :: "ustring \<Rightarrow> ustring" where
  "send_error e = ustr ''An error occurred when sending the message: '' @ e"

text \<open>
  One pass through the body of \<open>while True\<close>, on the outcome of its \<open>input()\<close>:
  the events of the pass, the session state after it, and how the pass ends
  (\<open>continue\<close> or the end of the body, \<open>break\<close>, or an exception that leaves
  the loop).
\<close>

datatype control = Continue | Break | Raise exn

definition loop_body ::
  "('m, 's) world \<Rightarrow> 's \<Rightarrow> stdin_event \<Rightarrow> event list \<times> 's \<times> control" where
  "loop_body w chat ev =
     (case ev of
        Interrupt \<Rightarrow> ([Input question_prompt, Print ([10] @ goodbye)], chat, Break)
      | EndOfInput \<Rightarrow> ([Input question_prompt, Print ([10] @ goodbye)], chat, Break)
      | Line raw \<Rightarrow>
          (let user_question = strip raw in
           if user_question = [] then ([Input question_prompt], chat, Continue)
           else if lower (unicode_lower w) user_question \<in> {ustr ''quit'', ustr ''exit''}
             then ([Input question_prompt, Print goodbye], chat, Break)
           else
             (case send_message w chat user_question of
                (Reply txt, chat') \<Rightarrow>
                  ([Input question_prompt, SendMessage user_question,
                    Print ([10] @ ustr ''--- Answer ---''),
                    Print (to_markdown txt),
                    Print (ustr ''---------------'' @ [10])], chat', Continue)
              | (ReplyTextRaises e, chat') \<Rightarrow>
                  ([Input question_prompt, SendMessage user_question,
                    Print ([10] @ ustr ''--- Answer ---''),
                    PrintErr (send_error e)], chat', Continue)
              | (SendRaises e, chat') \<Rightarrow>
                  ([Input question_prompt, SendMessage user_question,
                    PrintErr (send_error e)], chat', Continue)
              | (SendInterrupted, chat') \<Rightarrow>
                  ([Input question_prompt, SendMessage user_question], chat',
                   Raise KeyboardInterrupt))))"

text \<open>
  The loop over the outcomes of the successive \<open>input()\<close> calls. When standard input
  is exhausted, \<open>input()\<close> raises \<open>EOFError\<close>: the empty list is \<open>EndOfInput\<close>.
\<close>

fun chat_loop ::
  "('m, 's) world \<Rightarrow> 's \<Rightarrow> stdin_event list \<Rightarrow> event list \<times> 's \<times> exn option" where
  "chat_loop w chat [] =
     (case loop_body w chat EndOfInput of
        (evs, chat', Raise e) \<Rightarrow> (evs, chat', Some e)
      | (evs, chat', _) \<Rightarrow> (evs, chat', None))"
| "chat_loop w chat (ev # rest) =
     (case loop_body w chat ev of
        (evs, chat', Continue) \<Rightarrow>
          (case chat_loop w chat' rest of (evs', r) \<Rightarrow> (evs @ evs', r))
      | (evs, chat', Break) \<Rightarrow> (evs, chat', None)
      | (evs, chat', Raise e) \<Rightarrow> (evs, chat', Some e))"

definition run_chat_loop ::
  "('m, 's) world \<Rightarrow> ustring \<Rightarrow> stdin_event list \<Rightarrow> event list \<times> exn option" where
  "run_chat_loop w model_name stdin =
     (case generative_model w model_name system_instruction of
        Inl e \<Rightarrow> ([GenerativeModel model_name system_instruction], Some (OtherException e))
      | Inr model \<Rightarrow>
          (case start_chat w model of
             Inl e \<Rightarrow>
               (GenerativeModel model_name system_instruction # banner @ [StartChat],
                Some (OtherException e))
           | Inr chat \<Rightarrow>
               (case chat_loop w chat stdin of
                  (evs, chat', r) \<Rightarrow>
                    (GenerativeModel model_name system_instruction # banner
                       @ [StartChat] @ evs, r))))"

subsection \<open>main\<close>

text \<open>
  How the process ends: with an exit status (0 when \<open>main\<close> returns, the argument
  of \<open>sys.exit\<close> otherwise), or with an exception that nothing catches.
\<close>

datatype process_end = ExitCode nat | Uncaught exn

definition main :: "('m, 's) world \<Rightarrow> stdin_event list \<Rightarrow> event list \<times> process_end" where
  "main w stdin =
     (case configure_genai w of
        (evs1, Some (RuntimeError ex)) \<Rightarrow>
          (evs1 @ [PrintErr (ustr ''Configuration error: '' @ ex)], ExitCode 1)
      | (evs1, Some e) \<Rightarrow> (evs1, Uncaught e)
      | (evs1, None) \<Rightarrow>
          (case choose_model w (ustr ''gemini-flash-latest'') of
             (evs2, Inl (RuntimeError ex)) \<Rightarrow>
               (evs1 @ evs2 @ [PrintErr (ustr ''Model selection error: '' @ ex)], ExitCode 1)
           | (evs2, Inl e) \<Rightarrow> (evs1 @ evs2, Uncaught e)
           | (evs2, Inr model_name) \<Rightarrow>
               (case run_chat_loop w model_name stdin of
                  (evs3, None) \<Rightarrow> (evs1 @ evs2 @ evs3, ExitCode 0)
                | (evs3, Some KeyboardInterrupt) \<Rightarrow>
                    (evs1 @ evs2 @ evs3, Uncaught KeyboardInterrupt)
                | (evs3, Some (RuntimeError ex)) \<Rightarrow>
                    (evs1 @ evs2 @ evs3 @ [PrintErr (ustr ''Unexpected error: '' @ ex)],
                     ExitCode 1)
                | (evs3, Some (OtherException ex)) \<Rightarrow>
                    (evs1 @ evs2 @ evs3 @ [PrintErr (ustr ''Unexpected error: '' @ ex)],
                     ExitCode 1))))"

section \<open>The formatter as the specification words it\<close>

text \<open>
  The specification's component design describes the formatter as replacing every
  bullet glyph by a marker of two characters, a space and an asterisk, and then
  prefixing every line. \<open>format_as_stated\<close> follows those words; it is compared
  with \<open>to_markdown\<close> below.
\<close>

definition format_as_stated :: "ustring \<Rightarrow> ustring" where
  "format_as_stated t =
     concat (map ((@) (ustr ''> ''))
       (splitlines_keepends (concat (map (\<lambda>c. if c = bullet then [32, 42] else [c]) t))))"

section \<open>Reading a run\<close>

text \<open>
  The messages of the sends in a list of events, in order; the inputs on which the
  interaction loop of the specification stays in its cycle (a line that is no exit
  command; end of input and an interrupt end it); and the texts the specification
  has dispatched for a list of inputs: the stripped text of every line that is not
  empty after stripping.
\<close>

fun sends :: "event list \<Rightarrow> ustring list" where
  "sends [] = []"
| "sends (SendMessage q # es) = q # sends es"
| "sends (e # es) = sends es"

definition keeps_running :: "(ustring \<Rightarrow> ustring) \<Rightarrow> stdin_event \<Rightarrow> bool" where
  "keeps_running lc ev =
     (case ev of
        Line raw \<Rightarrow> lower lc (strip raw) \<notin> {ustr ''quit'', ustr ''exit''}
      | _ \<Rightarrow> False)"

definition dispatched :: "stdin_event list \<Rightarrow> ustring list" where
  "dispatched evs = [strip raw. Line raw \<leftarrow> evs, strip raw \<noteq> []]"

section \<open>A scripted provider\<close>

text \<open>
  A test double for the provider, in the sense of the specification's design notes:
  the session state counts the sends issued so far, and the outcome of the \<open>n\<close>-th
  send is the \<open>n\<close>-th entry of a script (past the script, the provider echoes the
  message). It gives the theorems below concrete runs.
\<close>

definition scripted_send :: "send_outcome list \<Rightarrow> nat \<Rightarrow> ustring \<Rightarrow> send_outcome \<times> nat" where
  "scripted_send outcomes n q =
     ((if n < length outcomes then outcomes ! n else Reply q), Suc n)"

definition scripted_world ::
  "(ustring \<rightharpoonup> ustring) \<Rightarrow> (ustring + ustring list) \<Rightarrow> send_outcome list
     \<Rightarrow> (unit, nat) world" where
  "scripted_world env listing outcomes =
     \<lparr>environ = env, list_models = listing,
      generative_model = (\<lambda>_ _. Inr ()), start_chat = (\<lambda>_. Inr 0),
      send_message = scripted_send outcomes, unicode_lower = (\<lambda>s. s)\<rparr>"

section \<open>Properties of the string operations\<close>

lemma ustr_eq_iff [simp]: "(ustr a = ustr b) = (a = b)"
  unfolding ustr_def by (rule inj_map_eq_map) (rule injI, simp)

lemma py_replace_single:
  "py_replace [b] new s = concat (map (\<lambda>c. if c = b then new else [c]) s)"
proof (induction s)
  case Nil
  show ?case by (simp add: py_replace.simps [of "[b]" new "[]"])
next
  case (Cons x xs)
  show ?case
    using Cons.IH by (simp add: py_replace.simps [of "[b]" new "x # xs"])
qed

lemma splitlines_from_nonempty: "s \<noteq> [] \<Longrightarrow> splitlines_from cur s \<noteq> []"
  by (induction cur s rule: splitlines_from.induct) auto

lemma splitlines_from_shift:
  "\<forall>c\<in>set p. \<not> is_linebreak c \<Longrightarrow> splitlines_from cur (p @ s) = splitlines_from (cur @ p) s"
proof (induction p arbitrary: cur)
  case Nil
  show ?case by simp
next
  case (Cons x p)
  have nx: "\<not> is_linebreak x" and np: "\<forall>c\<in>set p. \<not> is_linebreak c"
    using Cons.prems by simp_all
  have x13: "x \<noteq> 13" using nx by (auto simp: is_linebreak_def)
  show ?case
  proof (cases "p @ s")
    case Nil
    then show ?thesis by simp
  next
    case (Cons d r)
    have "splitlines_from cur ((x # p) @ s) = splitlines_from cur (x # d # r)"
      using Cons by simp
    also have "\<dots> = splitlines_from (cur @ [x]) (d # r)"
      using nx x13 by simp
    also have "\<dots> = splitlines_from (cur @ [x]) (p @ s)"
      using Cons by simp
    also have "\<dots> = splitlines_from ((cur @ [x]) @ p) s"
      using Cons.IH [OF np] by blast
    finally show ?thesis by simp
  qed
qed

lemma splitlines_from_prefixed:
  assumes p: "p \<noteq> []" "\<forall>c\<in>set p. \<not> is_linebreak c"
  shows "\<forall>c\<in>set cur. \<not> is_linebreak c \<Longrightarrow>
    splitlines_from [] (concat (map ((@) p) (splitlines_from cur s)))
      = map ((@) p) (splitlines_from cur s)"
proof (induction cur s rule: splitlines_from.induct)
  case (1 cur)
  have "\<forall>c\<in>set (p @ cur). \<not> is_linebreak c" using p 1 by auto
  from splitlines_from_shift [OF this, of "[]" "[]"] show ?case using p by simp
next
  case (2 cur c)
  have "\<forall>c\<in>set (p @ cur). \<not> is_linebreak c" using p 2 by auto
  from splitlines_from_shift [OF this, of "[]" "[c]"] show ?case by simp
next
  case (3 cur c d s)
  have pc: "\<forall>c\<in>set (p @ cur). \<not> is_linebreak c" using p 3 by auto
  note shift = splitlines_from_shift [OF pc, of "[]", simplified]
  consider (crlf) "c = 13 \<and> d = 10" | (lb) "\<not> (c = 13 \<and> d = 10)" "is_linebreak c"
    | (plain) "\<not> (c = 13 \<and> d = 10)" "\<not> is_linebreak c" by blast
  then show ?case
  proof cases
    case crlf
    have ih: "splitlines_from [] (concat (map ((@) p) (splitlines_from [] s)))
      = map ((@) p) (splitlines_from [] s)"
      using 3(1) crlf by simp
    have "splitlines_from [] (p @ cur @ 13 # 10 # concat (map ((@) p) (splitlines_from [] s)))
      = (p @ cur @ [13, 10]) # splitlines_from [] (concat (map ((@) p) (splitlines_from [] s)))"
      by (simp add: shift)
    then show ?thesis using crlf ih by simp
  next
    case lb
    have ih: "splitlines_from [] (concat (map ((@) p) (splitlines_from [] (d # s))))
      = map ((@) p) (splitlines_from [] (d # s))"
      using 3(2) lb by simp
    obtain l ls where L: "splitlines_from [] (d # s) = l # ls"
      using splitlines_from_nonempty [of "d # s" "[]"] by (cases "splitlines_from [] (d # s)") auto
    obtain e p' where P: "p = e # p'" using p by (cases p) auto
    have e10: "e \<noteq> 10" using p P by (auto simp: is_linebreak_def)
    define R where "R = p' @ l @ concat (map ((@) p) ls)"
    have cc: "concat (map ((@) p) (splitlines_from [] (d # s))) = e # R"
      by (simp add: L P R_def)
    have lhs: "splitlines_from cur (c # d # s) = (cur @ [c]) # splitlines_from [] (d # s)"
      using lb by auto
    have "splitlines_from [] (p @ cur @ c # e # R) = (p @ cur @ [c]) # splitlines_from [] (e # R)"
      using lb e10 by (simp add: shift)
    then have "splitlines_from [] (p @ (cur @ [c]) @ concat (map ((@) p) (splitlines_from [] (d # s))))
      = (p @ cur @ [c]) # map ((@) p) (splitlines_from [] (d # s))"
      using ih by (simp add: cc)
    then show ?thesis unfolding lhs by simp
  next
    case plain
    have "\<forall>c\<in>set (cur @ [c]). \<not> is_linebreak c" using 3(4) plain by auto
    from 3(3) [OF _ _ this] plain
    have ih: "splitlines_from [] (concat (map ((@) p) (splitlines_from (cur @ [c]) (d # s))))
      = map ((@) p) (splitlines_from (cur @ [c]) (d # s))"
      by simp
    have lhs: "splitlines_from cur (c # d # s) = splitlines_from (cur @ [c]) (d # s)"
      using plain by auto
    show ?thesis unfolding lhs by (rule ih)
  qed
qed

lemma concat_splitlines_from: "concat (splitlines_from cur s) = cur @ s"
  by (induction cur s rule: splitlines_from.induct) auto

lemma py_replace_absent: "b \<notin> set s \<Longrightarrow> py_replace [b] new s = s"
  by (induction s) (auto simp: py_replace_single)

lemma quote_marker_no_linebreak:
  "ustr ''> '' \<noteq> []" "\<forall>c\<in>set (ustr ''> ''). \<not> is_linebreak c"
  by (simp_all add: ustr_def is_linebreak_def)

lemma splitlines_keepends_prefixed:
  "splitlines_keepends (concat (map ((@) (ustr ''> '')) (splitlines_keepends s)))
     = map ((@) (ustr ''> '')) (splitlines_keepends s)"
  unfolding splitlines_keepends_def
  by (rule splitlines_from_prefixed [OF quote_marker_no_linebreak]) simp

lemma to_markdown_unfold:
  "to_markdown t =
     concat (map ((@) (ustr ''> ''))
       (splitlines_keepends (concat (map (\<lambda>c. if c = bullet then ustr ''  *'' else [c]) t))))"
proof -
  have "(\<lambda>line. ustr ''> '' @ line) = (@) (ustr ''> '')" by (rule ext) simp
  then show ?thesis by (simp add: to_markdown_def indent_def py_replace_single)
qed

section \<open>The formatter\<close>

text \<open>
  Claim C7. On the two lines \<open>"\<bullet> a"\<close> and \<open>"\<bullet> b"\<close>, separated by a newline,
  \<open>to_markdown\<close> returns exactly \<open>">   * a"\<close>, a newline, and \<open>">   * b"\<close>:
  each line has the prefix \<open>"> "\<close>, and each bullet glyph has become \<open>"  *"\<close>.
\<close>

theorem to_markdown_example:
  "to_markdown (bullet # ustr '' a'' @ [10] @ bullet # ustr '' b'')
     = ustr ''>   * a'' @ [10] @ ustr ''>   * b''"
  by (simp add: to_markdown_unfold splitlines_keepends_def ustr_def bullet_def is_linebreak_def)

text \<open>
  Claim C8, as stated, has the marker be two characters, a space and an asterisk. On
  the text that is one bullet glyph, the program returns \<open>">   *"\<close> (the marker is
  three characters, two spaces and an asterisk), and the formatter of the statement
  returns \<open>">  *"\<close>.
\<close>

theorem to_markdown_marker_counterexample:
  "to_markdown [bullet] = ustr ''>   *'' \<and> format_as_stated [bullet] = ustr ''>  *''
   \<and> to_markdown [bullet] \<noteq> format_as_stated [bullet]"
  by (simp add: to_markdown_unfold format_as_stated_def splitlines_keepends_def ustr_def bullet_def is_linebreak_def)

text \<open>
  Claim C8, amended. For every text, \<open>to_markdown\<close> replaces every bullet glyph by
  the three characters \<open>"  *"\<close> (two spaces and an asterisk) and leaves every other
  code point as it is, and then puts \<open>"> "\<close> before every line of the result, the
  first line and blank lines included (the lines of \<open>str.splitlines\<close>: the empty
  text has none). The lines of the output are exactly the lines of the replaced text,
  each with the prefix, and dropping the prefix of every output line gives the
  replaced text back.
\<close>

theorem to_markdown_lines:
  "to_markdown t =
     concat (map ((@) (ustr ''> ''))
       (splitlines_keepends (concat (map (\<lambda>c. if c = bullet then ustr ''  *'' else [c]) t))))
   \<and> splitlines_keepends (to_markdown t) =
     map ((@) (ustr ''> ''))
       (splitlines_keepends (concat (map (\<lambda>c. if c = bullet then ustr ''  *'' else [c]) t)))
   \<and> concat (map (drop 2) (splitlines_keepends (to_markdown t))) =
     concat (map (\<lambda>c. if c = bullet then ustr ''  *'' else [c]) t)"
proof -
  let ?r = "concat (map (\<lambda>c. if c = bullet then ustr ''  *'' else [c]) t)"
  have a: "to_markdown t = concat (map ((@) (ustr ''> '')) (splitlines_keepends ?r))"
    by (rule to_markdown_unfold)
  have b: "splitlines_keepends (to_markdown t) = map ((@) (ustr ''> '')) (splitlines_keepends ?r)"
    unfolding a by (rule splitlines_keepends_prefixed)
  have "map (drop 2) (map ((@) (ustr ''> '')) ls) = ls" for ls :: "ustring list"
    by (induction ls) (simp_all add: ustr_def)
  then have c: "concat (map (drop 2) (splitlines_keepends (to_markdown t))) = ?r"
    unfolding b by (simp add: splitlines_keepends_def concat_splitlines_from)
  from a b c show ?thesis by blast
qed

lemma bullet_not_in_to_markdown: "bullet \<notin> set (to_markdown t)"
proof -
  let ?r = "concat (map (\<lambda>c. if c = bullet then ustr ''  *'' else [c]) t)"
  have r: "bullet \<notin> set ?r" by (auto simp: ustr_def bullet_def)
  have "set (concat (map ((@) (ustr ''> '')) ls)) \<subseteq> set (ustr ''> '') \<union> set (concat ls)"
    for ls :: "ustring list" by auto
  from this [of "splitlines_keepends ?r"]
  have "set (to_markdown t) \<subseteq> set (ustr ''> '') \<union> set ?r"
    by (simp only: to_markdown_unfold splitlines_keepends_def concat_splitlines_from append_Nil)
  moreover have "bullet \<notin> set (ustr ''> '')" by (simp add: ustr_def bullet_def)
  ultimately show ?thesis using r by blast
qed

text \<open>
  Claim C9. \<open>to_markdown\<close> is not idempotent: on \<open>"a"\<close> one application gives
  \<open>"> a"\<close> and a second one \<open>"> > a"\<close>. For every text, the lines of the second
  application are the lines of the first, each with the prefix once more.
\<close>

theorem to_markdown_not_idempotent:
  "(\<exists>t. to_markdown (to_markdown t) \<noteq> to_markdown t)
   \<and> to_markdown (to_markdown (ustr ''a'')) = ustr ''> > a''
   \<and> (\<forall>t. splitlines_keepends (to_markdown (to_markdown t)) =
         map ((@) (ustr ''> '')) (splitlines_keepends (to_markdown t)))"
proof -
  have one: "to_markdown (ustr ''a'') = ustr ''> a''"
    by (simp add: to_markdown_unfold splitlines_keepends_def ustr_def bullet_def is_linebreak_def)
  have two: "to_markdown (ustr ''> a'') = ustr ''> > a''"
    by (simp add: to_markdown_unfold splitlines_keepends_def ustr_def bullet_def is_linebreak_def)
  have "ustr ''> > a'' \<noteq> ustr ''> a''" by (simp add: ustr_def)
  then have "to_markdown (to_markdown (ustr ''a'')) \<noteq> to_markdown (ustr ''a'')"
    by (simp only: one two not_False_eq_True)
  then have ex: "\<exists>t. to_markdown (to_markdown t) \<noteq> to_markdown t" by (rule exI)
  have again: "splitlines_keepends (to_markdown (to_markdown t)) =
         map ((@) (ustr ''> '')) (splitlines_keepends (to_markdown t))" for t
  proof -
    have "bullet \<notin> set (to_markdown t)" by (rule bullet_not_in_to_markdown)
    then have "py_replace [bullet] (ustr ''  *'') (to_markdown t) = to_markdown t"
      by (rule py_replace_absent)
    then have "to_markdown (to_markdown t)
        = concat (map ((@) (ustr ''> '')) (splitlines_keepends (to_markdown t)))"
      by (simp add: to_markdown_def [of "to_markdown t"] indent_def cong: map_cong)
    then show ?thesis by (simp only: splitlines_keepends_prefixed)
  qed
  from ex one two again show ?thesis by simp
qed

section \<open>Model selection\<close>

lemma sublist_join: "n \<in> set xs \<Longrightarrow> sublist n (join sep xs)"
proof (induction sep xs rule: join.induct)
  case (1 sep)
  then show ?case by simp
next
  case (2 sep x)
  then show ?case by simp
next
  case (3 sep x y ys)
  show ?case
  proof (cases "n = x")
    case True
    then show ?thesis by simp
  next
    case False
    with 3 have "sublist n (join sep (y # ys))" by simp
    then obtain ps ss where "join sep (y # ys) = ps @ n @ ss" by (auto simp: sublist_def)
    then have "join sep (x # y # ys) = (x @ sep @ ps) @ n @ ss" by simp
    then show ?thesis unfolding sublist_def by blast
  qed
qed

lemma sublist_not_available_message:
  "n \<in> set available \<Longrightarrow> sublist n (not_available_message preferred available)"
proof -
  assume "n \<in> set available"
  then have "sublist n (join [10] available)" by (rule sublist_join)
  then obtain ps ss where "join [10] available = ps @ n @ ss" by (auto simp: sublist_def)
  then have "\<exists>ps' ss'. not_available_message preferred available = ps' @ n @ ss'"
    unfolding not_available_message_def
    by (metis append.assoc)
  then show ?thesis by (simp add: sublist_def)
qed

lemma first_candidate_None:
  "(first_candidate cs available = None) = (\<forall>c\<in>set cs. c \<notin> set available)"
  by (induction cs) auto

text \<open>
  Claim C1. For every list of names that the provider's listing returns and every
  preferred identifier, \<open>choose_model\<close> issues the one listing query and returns
  \<open>preferred\<close> when it is among the available names; otherwise the first of
  \<open>gemini-2.5-flash\<close>, \<open>gemini-2.5-flash-lite\<close> and \<open>gemini-flash-latest\<close>, in this
  order, that is among them; otherwise it raises a \<open>RuntimeError\<close> whose message
  contains every available name.
\<close>

theorem choose_model_policy:
  "list_models w = Inr available \<longrightarrow>
   fst (choose_model w preferred) = [ListModels] \<and>
   (preferred \<in> set available \<longrightarrow> snd (choose_model w preferred) = Inr preferred) \<and>
   (preferred \<notin> set available \<and> ustr ''gemini-2.5-flash'' \<in> set available \<longrightarrow>
      snd (choose_model w preferred) = Inr (ustr ''gemini-2.5-flash'')) \<and>
   (preferred \<notin> set available \<and> ustr ''gemini-2.5-flash'' \<notin> set available
      \<and> ustr ''gemini-2.5-flash-lite'' \<in> set available \<longrightarrow>
      snd (choose_model w preferred) = Inr (ustr ''gemini-2.5-flash-lite'')) \<and>
   (preferred \<notin> set available \<and> ustr ''gemini-2.5-flash'' \<notin> set available
      \<and> ustr ''gemini-2.5-flash-lite'' \<notin> set available
      \<and> ustr ''gemini-flash-latest'' \<in> set available \<longrightarrow>
      snd (choose_model w preferred) = Inr (ustr ''gemini-flash-latest'')) \<and>
   (preferred \<notin> set available \<and> ustr ''gemini-2.5-flash'' \<notin> set available
      \<and> ustr ''gemini-2.5-flash-lite'' \<notin> set available
      \<and> ustr ''gemini-flash-latest'' \<notin> set available \<longrightarrow>
      (\<exists>msg. snd (choose_model w preferred) = Inl (RuntimeError msg)
         \<and> (\<forall>n\<in>set available. sublist n msg)))"
proof (intro impI)
  assume l: "list_models w = Inr available"
  have r: "snd (choose_model w preferred) =
      (if preferred \<in> set available then Inr preferred
       else if ustr ''gemini-2.5-flash'' \<in> set available then Inr (ustr ''gemini-2.5-flash'')
       else if ustr ''gemini-2.5-flash-lite'' \<in> set available
         then Inr (ustr ''gemini-2.5-flash-lite'')
       else if ustr ''gemini-flash-latest'' \<in> set available
         then Inr (ustr ''gemini-flash-latest'')
       else Inl (RuntimeError (not_available_message preferred available)))"
    by (simp add: choose_model_def l fallback_candidates_def)
  have e: "fst (choose_model w preferred) = [ListModels]"
    by (simp add: choose_model_def l)
  have m: "\<forall>n\<in>set available. sublist n (not_available_message preferred available)"
    by (simp add: sublist_not_available_message)
  show "fst (choose_model w preferred) = [ListModels] \<and>
   (preferred \<in> set available \<longrightarrow> snd (choose_model w preferred) = Inr preferred) \<and>
   (preferred \<notin> set available \<and> ustr ''gemini-2.5-flash'' \<in> set available \<longrightarrow>
      snd (choose_model w preferred) = Inr (ustr ''gemini-2.5-flash'')) \<and>
   (preferred \<notin> set available \<and> ustr ''gemini-2.5-flash'' \<notin> set available
      \<and> ustr ''gemini-2.5-flash-lite'' \<in> set available \<longrightarrow>
      snd (choose_model w preferred) = Inr (ustr ''gemini-2.5-flash-lite'')) \<and>
   (preferred \<notin> set available \<and> ustr ''gemini-2.5-flash'' \<notin> set available
      \<and> ustr ''gemini-2.5-flash-lite'' \<notin> set available
      \<and> ustr ''gemini-flash-latest'' \<in> set available \<longrightarrow>
      snd (choose_model w preferred) = Inr (ustr ''gemini-flash-latest'')) \<and>
   (preferred \<notin> set available \<and> ustr ''gemini-2.5-flash'' \<notin> set available
      \<and> ustr ''gemini-2.5-flash-lite'' \<notin> set available
      \<and> ustr ''gemini-flash-latest'' \<notin> set available \<longrightarrow>
      (\<exists>msg. snd (choose_model w preferred) = Inl (RuntimeError msg)
         \<and> (\<forall>n\<in>set available. sublist n msg)))"
    using e m by (simp add: r)
qed

theorem choose_model_policy_witness:
  "snd (choose_model (scripted_world Map.empty (Inr [ustr ''gemini-flash-latest'']) [])
       default_preferred) = Inr (ustr ''gemini-flash-latest'')
   \<and> snd (choose_model (scripted_world Map.empty
         (Inr [ustr ''gemini-flash-latest'', ustr ''gemini-2.5-flash'']) [])
       (ustr ''gemini-pro'')) = Inr (ustr ''gemini-2.5-flash'')
   \<and> snd (choose_model (scripted_world Map.empty
         (Inr [ustr ''gemini-flash-latest'', ustr ''gemini-2.5-flash-lite'']) [])
       (ustr ''gemini-pro'')) = Inr (ustr ''gemini-2.5-flash-lite'')
   \<and> snd (choose_model (scripted_world Map.empty
         (Inr [ustr ''models/a'', ustr ''gemini-flash-latest'']) [])
       (ustr ''gemini-pro'')) = Inr (ustr ''gemini-flash-latest'')
   \<and> (\<exists>msg. snd (choose_model (scripted_world Map.empty
         (Inr [ustr ''models/a'', ustr ''b'']) []) default_preferred) = Inl (RuntimeError msg)
        \<and> sublist (ustr ''models/a'') msg \<and> sublist (ustr ''b'') msg)"
  using
    choose_model_policy [of "scripted_world Map.empty (Inr [ustr ''gemini-flash-latest'']) []"
      "[ustr ''gemini-flash-latest'']" default_preferred]
    choose_model_policy [of "scripted_world Map.empty
         (Inr [ustr ''gemini-flash-latest'', ustr ''gemini-2.5-flash'']) []"
      "[ustr ''gemini-flash-latest'', ustr ''gemini-2.5-flash'']" "ustr ''gemini-pro''"]
    choose_model_policy [of "scripted_world Map.empty
         (Inr [ustr ''gemini-flash-latest'', ustr ''gemini-2.5-flash-lite'']) []"
      "[ustr ''gemini-flash-latest'', ustr ''gemini-2.5-flash-lite'']" "ustr ''gemini-pro''"]
    choose_model_policy [of "scripted_world Map.empty
         (Inr [ustr ''models/a'', ustr ''gemini-flash-latest'']) []"
      "[ustr ''models/a'', ustr ''gemini-flash-latest'']" "ustr ''gemini-pro''"]
    choose_model_policy [of "scripted_world Map.empty (Inr [ustr ''models/a'', ustr ''b'']) []"
      "[ustr ''models/a'', ustr ''b'']" default_preferred]
  by (simp add: scripted_world_def default_preferred_def)

text \<open>
  Claim C5, as stated, has no member of the fallback list equal to \<open>preferred\<close>,
  the default value included. The last member of the list is the default value.
\<close>

theorem fallback_contains_default_counterexample:
  "\<not> (\<forall>c\<in>set fallback_candidates. c \<noteq> default_preferred)
   \<and> fallback_candidates ! 2 = default_preferred"
  by (simp add: fallback_candidates_def default_preferred_def)

text \<open>
  Claim C5, amended. The fallback list is fixed and has three members. Its first two
  members differ from the default preferred value \<open>gemini-flash-latest\<close>; its last
  member is that value. With the default value as \<open>preferred\<close> the last member is
  redundant: when the default is not available the scan selects what the scan of the
  first two members selects, and \<open>choose_model\<close> returns the default value exactly
  when it is available.
\<close>

theorem fallback_candidates_redundant:
  "length fallback_candidates = 3
   \<and> (\<forall>c\<in>set (take 2 fallback_candidates). c \<noteq> default_preferred)
   \<and> fallback_candidates ! 2 = default_preferred
   \<and> (default_preferred \<notin> set available \<longrightarrow>
        first_candidate fallback_candidates available
          = first_candidate (take 2 fallback_candidates) available)
   \<and> (list_models w = Inr available \<longrightarrow>
        (snd (choose_model w default_preferred) = Inr default_preferred)
          = (default_preferred \<in> set available))"
  by (simp add: fallback_candidates_def default_preferred_def choose_model_def numeral_2_eq_2)

theorem fallback_candidates_redundant_witness:
  "length fallback_candidates = 3
   \<and> fallback_candidates ! 2 = default_preferred
   \<and> default_preferred \<notin> set [ustr ''gemini-2.5-flash-lite'']
   \<and> first_candidate fallback_candidates [ustr ''gemini-2.5-flash-lite'']
       = Some (ustr ''gemini-2.5-flash-lite'')
   \<and> first_candidate (take 2 fallback_candidates) [ustr ''gemini-2.5-flash-lite'']
       = Some (ustr ''gemini-2.5-flash-lite'')
   \<and> snd (choose_model (scripted_world Map.empty (Inr [ustr ''gemini-2.5-flash-lite'']) [])
       default_preferred) \<noteq> Inr default_preferred"
  using fallback_candidates_redundant
    [of "[ustr ''gemini-2.5-flash-lite'']"
        "scripted_world Map.empty (Inr [ustr ''gemini-2.5-flash-lite'']) []"]
  by (simp add: scripted_world_def fallback_candidates_def default_preferred_def numeral_2_eq_2)

section \<open>The interaction loop\<close>

lemma sends_append: "sends (xs @ ys) = sends xs @ sends ys"
  by (induction xs rule: sends.induct) auto

lemma lower_Nil: "lower lc [] = []"
  by (simp add: lower_def)

lemma not_exit_Nil: "lower lc [] \<notin> {ustr ''quit'', ustr ''exit''}"
  by (simp add: lower_Nil ustr_def)

lemma loop_body_blank:
  "strip raw = [] \<Longrightarrow> loop_body w chat (Line raw) = ([Input question_prompt], chat, Continue)"
  by (simp add: loop_body_def)

lemma loop_body_exit:
  "lower (unicode_lower w) (strip raw) \<in> {ustr ''quit'', ustr ''exit''} \<Longrightarrow>
   loop_body w chat (Line raw) = ([Input question_prompt, Print goodbye], chat, Break)"
  using not_exit_Nil [of "unicode_lower w"]
  by (cases "strip raw = []") (auto simp: loop_body_def Let_def)

lemma loop_body_send:
  "strip raw \<noteq> [] \<Longrightarrow> lower (unicode_lower w) (strip raw) \<notin> {ustr ''quit'', ustr ''exit''} \<Longrightarrow>
   loop_body w chat (Line raw) =
     (case send_message w chat (strip raw) of
        (Reply txt, chat') \<Rightarrow>
          ([Input question_prompt, SendMessage (strip raw),
            Print ([10] @ ustr ''--- Answer ---''),
            Print (to_markdown txt),
            Print (ustr ''---------------'' @ [10])], chat', Continue)
      | (ReplyTextRaises e, chat') \<Rightarrow>
          ([Input question_prompt, SendMessage (strip raw),
            Print ([10] @ ustr ''--- Answer ---''),
            PrintErr (send_error e)], chat', Continue)
      | (SendRaises e, chat') \<Rightarrow>
          ([Input question_prompt, SendMessage (strip raw),
            PrintErr (send_error e)], chat', Continue)
      | (SendInterrupted, chat') \<Rightarrow>
          ([Input question_prompt, SendMessage (strip raw)], chat',
           Raise KeyboardInterrupt))"
  by (simp add: loop_body_def Let_def)

lemma loop_body_stop:
  "ev = EndOfInput \<or> ev = Interrupt \<Longrightarrow>
   loop_body w chat ev = ([Input question_prompt, Print ([10] @ goodbye)], chat, Break)"
  by (auto simp: loop_body_def)

lemma chat_loop_Continue:
  "loop_body w chat ev = (evs, chat', Continue) \<Longrightarrow>
   chat_loop w chat (ev # rest) = (evs @ fst (chat_loop w chat' rest), snd (chat_loop w chat' rest))"
  by (simp add: case_prod_unfold)

lemma chat_loop_Break:
  "loop_body w chat ev = (evs, chat', Break) \<Longrightarrow> chat_loop w chat (ev # rest) = (evs, chat', None)"
  by simp

lemma chat_loop_Raise:
  "loop_body w chat ev = (evs, chat', Raise e) \<Longrightarrow> chat_loop w chat (ev # rest) = (evs, chat', Some e)"
  by simp

lemma chat_loop_Nil:
  "chat_loop w chat [] = ([Input question_prompt, Print ([10] @ goodbye)], chat, None)"
  by (simp add: loop_body_stop)

text \<open>One pass on a line that keeps the loop running, when the send is not interrupted.\<close>

lemma loop_body_running:
  assumes "keeps_running (unicode_lower w) ev"
    and "\<forall>s q. fst (send_message w s q) \<noteq> SendInterrupted"
  shows "\<exists>evs chat'. loop_body w chat ev = (evs, chat', Continue) \<and> sends evs = dispatched [ev]"
proof -
  from assms(1) obtain raw where ev: "ev = Line raw"
    and ne: "lower (unicode_lower w) (strip raw) \<notin> {ustr ''quit'', ustr ''exit''}"
    by (cases ev) (auto simp: keeps_running_def)
  show ?thesis
  proof (cases "strip raw = []")
    case True
    then show ?thesis by (simp add: ev loop_body_blank dispatched_def)
  next
    case False
    obtain out chat' where s: "send_message w chat (strip raw) = (out, chat')"
      by (cases "send_message w chat (strip raw)")
    with assms(2) have "out \<noteq> SendInterrupted" by (metis fst_conv)
    then show ?thesis
      using False by (cases out) (simp_all add: ev loop_body_send [OF False ne] s dispatched_def)
  qed
qed

lemma dispatched_Cons: "dispatched (ev # evs) = dispatched [ev] @ dispatched evs"
  by (simp add: dispatched_def)

lemma dispatched_append: "dispatched (xs @ ys) = dispatched xs @ dispatched ys"
  by (simp add: dispatched_def)

lemma chat_loop_running_prefix:
  assumes ni: "\<forall>s q. fst (send_message w s q) \<noteq> SendInterrupted"
  shows "\<forall>e\<in>set pre. keeps_running (unicode_lower w) e \<Longrightarrow>
    \<exists>evs chat'. chat_loop w chat (pre @ rest)
        = (evs @ fst (chat_loop w chat' rest), snd (chat_loop w chat' rest))
      \<and> sends evs = dispatched pre"
proof (induction pre arbitrary: chat)
  case Nil
  have "chat_loop w chat ([] @ rest) = ([] @ fst (chat_loop w chat rest), snd (chat_loop w chat rest))
      \<and> sends [] = dispatched []"
    by (simp add: dispatched_def)
  then show ?case by blast
next
  case (Cons ev pre)
  from Cons.prems have k: "keeps_running (unicode_lower w) ev"
    and ks: "\<forall>e\<in>set pre. keeps_running (unicode_lower w) e" by simp_all
  from loop_body_running [OF k ni, of chat] obtain evs1 chat1
    where b: "loop_body w chat ev = (evs1, chat1, Continue)" and s1: "sends evs1 = dispatched [ev]"
    by blast
  from Cons.IH [OF ks, of chat1] obtain evs2 chat2
    where l: "chat_loop w chat1 (pre @ rest)
        = (evs2 @ fst (chat_loop w chat2 rest), snd (chat_loop w chat2 rest))"
      and s2: "sends evs2 = dispatched pre" by blast
  have "chat_loop w chat ((ev # pre) @ rest)
      = ((evs1 @ evs2) @ fst (chat_loop w chat2 rest), snd (chat_loop w chat2 rest))"
    using chat_loop_Continue [OF b, of "pre @ rest"] by (simp add: l)
  moreover have "sends (evs1 @ evs2) = dispatched (ev # pre)"
    using s1 s2 dispatched_Cons [of ev pre] by (simp add: sends_append)
  ultimately show ?case by blast
qed

text \<open>An input that does not keep the loop running ends it, with a farewell and no send.\<close>

lemma chat_loop_stops:
  assumes "\<not> keeps_running (unicode_lower w) ev"
  shows "chat_loop w chat (ev # rest) =
     ([Input question_prompt, Print (case ev of Line raw \<Rightarrow> goodbye | _ \<Rightarrow> [10] @ goodbye)],
      chat, None)"
proof (cases ev)
  case (Line raw)
  with assms have "lower (unicode_lower w) (strip raw) \<in> {ustr ''quit'', ustr ''exit''}"
    by (simp add: keeps_running_def)
  from loop_body_exit [OF this] show ?thesis by (simp add: Line)
next
  case EndOfInput
  then show ?thesis by (simp add: loop_body_stop)
next
  case Interrupt
  then show ?thesis by (simp add: loop_body_stop)
qed

section \<open>The whole program\<close>

lemma fst_choose_model: "fst (choose_model w preferred) = [ListModels]"
  by (simp add: choose_model_def split: sum.splits)

lemma chat_loop_raises_only_interrupt:
  "snd (snd (chat_loop w chat ins)) = Some e \<Longrightarrow> e = KeyboardInterrupt"
proof (induction ins arbitrary: chat)
  case Nil
  then show ?case by (simp add: loop_body_stop)
next
  case (Cons ev ins)
  obtain evs chat' c where b: "loop_body w chat ev = (evs, chat', c)"
    by (cases "loop_body w chat ev") auto
  show ?case
  proof (cases c)
    case Continue
    with Cons b show ?thesis by (simp add: case_prod_unfold)
  next
    case Break
    with Cons.prems b show ?thesis by simp
  next
    case (Raise x)
    have "x = KeyboardInterrupt"
      using b Raise
      by (auto simp: loop_body_def Let_def split: stdin_event.splits if_splits send_outcome.splits prod.splits)
    with Cons.prems b Raise show ?thesis by simp
  qed
qed

lemma main_after_startup:
  assumes "environ w (ustr ''GOOGLE_API_KEY'') = Some k" "k \<noteq> []"
    and "snd (choose_model w (ustr ''gemini-flash-latest'')) = Inr name"
    and "generative_model w name system_instruction = Inr m"
    and "start_chat w m = Inr chat"
  shows "main w stdin =
    (Configure k # ListModels # GenerativeModel name system_instruction # banner
       @ [StartChat] @ fst (chat_loop w chat stdin),
     case snd (snd (chat_loop w chat stdin)) of
       None \<Rightarrow> ExitCode 0 | Some e \<Rightarrow> Uncaught KeyboardInterrupt)"
proof -
  have c: "choose_model w (ustr ''gemini-flash-latest'') = ([ListModels], Inr name)"
    using assms(3) fst_choose_model [of w "ustr ''gemini-flash-latest''"]
    by (cases "choose_model w (ustr ''gemini-flash-latest'')") simp
  obtain evs chat' r where l: "chat_loop w chat stdin = (evs, chat', r)"
    by (cases "chat_loop w chat stdin") auto
  have r: "r = None \<or> r = Some KeyboardInterrupt"
    using chat_loop_raises_only_interrupt [of w chat stdin] l by (cases r) auto
  have g: "configure_genai w = ([Configure k], None)"
    using assms(1,2) by (simp add: configure_genai_def)
  have rc: "run_chat_loop w name stdin =
      (GenerativeModel name system_instruction # banner @ [StartChat] @ evs, r)"
    using assms(4,5) l by (simp add: run_chat_loop_def)
  from r show ?thesis
    by (auto simp: main_def g c rc l)
qed

section \<open>Sends per input\<close>

lemma sends_loop_body_send:
  "strip raw \<noteq> [] \<Longrightarrow> lower (unicode_lower w) (strip raw) \<notin> {ustr ''quit'', ustr ''exit''} \<Longrightarrow>
   sends (fst (loop_body w chat (Line raw))) = [strip raw]"
proof -
  assume a: "strip raw \<noteq> []" "lower (unicode_lower w) (strip raw) \<notin> {ustr ''quit'', ustr ''exit''}"
  obtain out chat' where s: "send_message w chat (strip raw) = (out, chat')"
    by (cases "send_message w chat (strip raw)")
  show ?thesis by (cases out) (simp_all add: loop_body_send [OF a] s)
qed

lemma sends_chat_loop:
  assumes ni: "\<forall>s q. fst (send_message w s q) \<noteq> SendInterrupted"
  shows "sends (fst (chat_loop w chat ins)) = dispatched (takeWhile (keeps_running (unicode_lower w)) ins)"
proof -
  let ?P = "keeps_running (unicode_lower w)"
  have "\<forall>e\<in>set (takeWhile ?P ins). ?P e" by (auto dest: set_takeWhileD)
  from chat_loop_running_prefix [OF ni this, of chat "dropWhile ?P ins"]
  obtain evs chat' where
    l: "chat_loop w chat ins = (evs @ fst (chat_loop w chat' (dropWhile ?P ins)),
          snd (chat_loop w chat' (dropWhile ?P ins)))"
    and s: "sends evs = dispatched (takeWhile ?P ins)" by auto
  have "sends (fst (chat_loop w chat' (dropWhile ?P ins))) = []"
  proof (cases "dropWhile ?P ins")
    case Nil
    show ?thesis by (simp only: Nil chat_loop_Nil fst_conv sends.simps)
  next
    case (Cons ev rest)
    then have "\<not> ?P ev" using hd_dropWhile [of ?P ins] by auto
    from chat_loop_stops [OF this] show ?thesis by (simp only: Cons fst_conv sends.simps)
  qed
  with l s show ?thesis by (simp add: sends_append)
qed

lemma scripted_send_not_interrupted:
  "SendInterrupted \<notin> set outcomes \<Longrightarrow> fst (scripted_send outcomes s q) \<noteq> SendInterrupted"
  by (auto simp: scripted_send_def dest: nth_mem)

lemmas eval_strings =
  strip_def is_space_def lower_def ascii_lower_def ustr_def

text \<open>
  Claim C2. In every session state, a line that after stripping is neither empty nor
  an exit command makes the pass through the loop body issue exactly one send, with
  the stripped text; a line that is empty after stripping issues no send, leaves the
  session as it is and returns the loop to its next input. Over a whole sequence of
  inputs of which no send is interrupted, the sends issued are, in order, the
  stripped texts of the non-empty lines read before the input that ends the loop.
\<close>

theorem one_send_per_question:
  "(strip raw \<noteq> [] \<and> lower (unicode_lower w) (strip raw) \<notin> {ustr ''quit'', ustr ''exit''} \<longrightarrow>
      sends (fst (loop_body w chat (Line raw))) = [strip raw])
   \<and> (strip raw = [] \<longrightarrow>
        loop_body w chat (Line raw) = ([Input question_prompt], chat, Continue)
        \<and> chat_loop w chat (Line raw # rest)
            = (Input question_prompt # fst (chat_loop w chat rest), snd (chat_loop w chat rest)))
   \<and> ((\<forall>s q. fst (send_message w s q) \<noteq> SendInterrupted) \<longrightarrow>
        sends (fst (chat_loop w chat ins))
          = dispatched (takeWhile (keeps_running (unicode_lower w)) ins))"
proof (intro conjI impI)
  assume "strip raw \<noteq> [] \<and> lower (unicode_lower w) (strip raw) \<notin> {ustr ''quit'', ustr ''exit''}"
  then show "sends (fst (loop_body w chat (Line raw))) = [strip raw]"
    by (simp add: sends_loop_body_send)
next
  assume "strip raw = []"
  then show "loop_body w chat (Line raw) = ([Input question_prompt], chat, Continue)"
    by (rule loop_body_blank)
next
  assume "strip raw = []"
  then have "loop_body w chat (Line raw) = ([Input question_prompt], chat, Continue)"
    by (rule loop_body_blank)
  from chat_loop_Continue [OF this]
  show "chat_loop w chat (Line raw # rest)
      = (Input question_prompt # fst (chat_loop w chat rest), snd (chat_loop w chat rest))"
    by simp
next
  assume "\<forall>s q. fst (send_message w s q) \<noteq> SendInterrupted"
  then show "sends (fst (chat_loop w chat ins))
      = dispatched (takeWhile (keeps_running (unicode_lower w)) ins)"
    by (rule sends_chat_loop)
qed

theorem one_send_per_question_witness:
  "sends (fst (loop_body (scripted_world Map.empty (Inr []) []) 0 (Line (ustr ''  hello ''))))
     = [ustr ''hello'']
   \<and> loop_body (scripted_world Map.empty (Inr []) []) 0 (Line (ustr ''   ''))
     = ([Input question_prompt], 0, Continue)
   \<and> sends (fst (chat_loop (scripted_world Map.empty (Inr []) []) 0
         [Line (ustr ''  hello ''), Line (ustr ''   ''), Line (ustr ''What is bail?''),
          Line (ustr '' Quit''), Line (ustr ''ignored'')]))
     = [ustr ''hello'', ustr ''What is bail?'']"
proof -
  let ?w = "scripted_world Map.empty (Inr []) []"
  have ni: "\<forall>s q. fst (send_message ?w s q) \<noteq> SendInterrupted"
    by (simp add: scripted_world_def scripted_send_not_interrupted)
  have lc: "unicode_lower ?w = (\<lambda>s. s)" by (simp add: scripted_world_def)
  have a: "strip (ustr ''  hello '') = ustr ''hello''" by (simp add: eval_strings)
  have a': "lower (\<lambda>s. s) (ustr ''hello'') \<notin> {ustr ''quit'', ustr ''exit''}"
    by (simp add: eval_strings)
  have b: "strip (ustr ''   '') = []" by (simp add: eval_strings)
  have h: "ustr ''hello'' \<noteq> []" by (simp add: ustr_def)
  have c: "dispatched (takeWhile (keeps_running (\<lambda>s. s))
         [Line (ustr ''  hello ''), Line (ustr ''   ''), Line (ustr ''What is bail?''),
          Line (ustr '' Quit''), Line (ustr ''ignored'')])
       = [ustr ''hello'', ustr ''What is bail?'']"
    by (simp add: dispatched_def keeps_running_def eval_strings)
  have p1: "sends (fst (loop_body ?w 0 (Line (ustr ''  hello ''))))
      = [strip (ustr ''  hello '')]"
    by (rule one_send_per_question [THEN conjunct1, THEN mp]) (use a a' h in \<open>simp add: lc\<close>)
  have p2: "loop_body ?w 0 (Line (ustr ''   '')) = ([Input question_prompt], 0, Continue)"
    by (rule one_send_per_question
          [THEN conjunct2, THEN conjunct1, THEN mp, THEN conjunct1]) (rule b)
  have p3: "sends (fst (chat_loop ?w 0
         [Line (ustr ''  hello ''), Line (ustr ''   ''), Line (ustr ''What is bail?''),
          Line (ustr '' Quit''), Line (ustr ''ignored'')]))
      = dispatched (takeWhile (keeps_running (unicode_lower ?w))
         [Line (ustr ''  hello ''), Line (ustr ''   ''), Line (ustr ''What is bail?''),
          Line (ustr '' Quit''), Line (ustr ''ignored'')])"
    by (rule one_send_per_question [THEN conjunct2, THEN conjunct2, THEN mp]) (rule ni)
  from p1 p2 p3 show ?thesis by (simp only: a c lc simp_thms)
qed

section \<open>Leaving the loop\<close>

lemma exit_examples:
  "lower lc (strip (ustr ''exit'')) = ustr ''exit''"
  "lower lc (strip (ustr ''Exit'')) = ustr ''exit''"
  "lower lc (strip (ustr ''  QUIT  '')) = ustr ''quit''"
  by (simp_all add: eval_strings)

lemma main_exit_after_prefix:
  assumes st: "environ w (ustr ''GOOGLE_API_KEY'') = Some k" "k \<noteq> []"
      "snd (choose_model w (ustr ''gemini-flash-latest'')) = Inr name"
      "generative_model w name system_instruction = Inr m"
      "start_chat w m = Inr chat"
    and ni: "\<forall>s q. fst (send_message w s q) \<noteq> SendInterrupted"
    and pre: "\<forall>e\<in>set pre. keeps_running (unicode_lower w) e"
    and ev: "\<not> keeps_running (unicode_lower w) ev"
  shows "snd (main w (pre @ ev # rest)) = ExitCode 0
    \<and> last (fst (main w (pre @ ev # rest)))
        = Print (case ev of Line raw \<Rightarrow> goodbye | _ \<Rightarrow> [10] @ goodbye)
    \<and> sends (fst (main w (pre @ ev # rest))) = dispatched pre"
proof -
  let ?bye = "Print (case ev of Line raw \<Rightarrow> goodbye | _ \<Rightarrow> [10] @ goodbye)"
  from chat_loop_running_prefix [OF ni pre, of chat "ev # rest"] obtain evs chat'
    where l: "chat_loop w chat (pre @ ev # rest)
        = (evs @ fst (chat_loop w chat' (ev # rest)), snd (chat_loop w chat' (ev # rest)))"
      and s: "sends evs = dispatched pre" by blast
  have l': "chat_loop w chat (pre @ ev # rest) = (evs @ [Input question_prompt, ?bye], chat', None)"
    unfolding l chat_loop_stops [OF ev] by simp
  have sb: "sends banner = []" by (simp add: banner_def)
  have m: "main w (pre @ ev # rest) =
    (Configure k # ListModels # GenerativeModel name system_instruction # banner
       @ [StartChat] @ evs @ [Input question_prompt, ?bye], ExitCode 0)"
    unfolding main_after_startup [OF st] l' by simp
  show ?thesis unfolding m by (simp add: sends_append sb s)
qed

lemma scripted_world_simps:
  "environ (scripted_world env listing outcomes) = env"
  "list_models (scripted_world env listing outcomes) = listing"
  "generative_model (scripted_world env listing outcomes) n i = Inr ()"
  "start_chat (scripted_world env listing outcomes) u = Inr 0"
  "send_message (scripted_world env listing outcomes) = scripted_send outcomes"
  "unicode_lower (scripted_world env listing outcomes) = (\<lambda>s. s)"
  by (simp_all add: scripted_world_def)

lemma scripted_choose_latest:
  "snd (choose_model (scripted_world env (Inr [ustr ''gemini-flash-latest'']) outcomes)
     (ustr ''gemini-flash-latest'')) = Inr (ustr ''gemini-flash-latest'')"
  by (simp add: choose_model_def scripted_world_simps)

lemma keeps_running_hi: "keeps_running (\<lambda>s. s) (Line (ustr ''hi''))"
  by (simp add: keeps_running_def eval_strings)

lemma strip_hi: "strip (ustr ''hi'') = ustr ''hi''" "ustr ''hi'' \<noteq> []"
  "lower (\<lambda>s. s) (ustr ''hi'') \<notin> {ustr ''quit'', ustr ''exit''}"
  by (simp_all add: eval_strings)

text \<open>
  Claim C3. On end of input, and on a line that after stripping and lowering is
  \<open>exit\<close> or \<open>quit\<close> (as \<open>"exit"\<close>, \<open>"Exit"\<close> and \<open>"  QUIT  "\<close> are), the loop ends
  in every session state: it prints the farewell, issues no send, reads no further
  input and raises nothing; exhausted standard input ends it the same way. When the
  program has started (credential set, model resolved, session open) and such an
  input follows inputs that keep the loop running, none of whose sends is
  interrupted, the process exits with code 0, the farewell is the last event, and the
  sends are those of the earlier inputs only.
\<close>

theorem exit_command_ends_program:
  "(ev = EndOfInput \<or> ev = Line raw \<and>
      lower (unicode_lower w) (strip raw) \<in> {ustr ''quit'', ustr ''exit''}) \<longrightarrow>
   chat_loop w chat (ev # rest) =
     ([Input question_prompt, Print (if ev = EndOfInput then [10] @ goodbye else goodbye)],
      chat, None)
   \<and> chat_loop w chat [] = ([Input question_prompt, Print ([10] @ goodbye)], chat, None)
   \<and> (environ w (ustr ''GOOGLE_API_KEY'') = Some k \<and> k \<noteq> []
      \<and> snd (choose_model w (ustr ''gemini-flash-latest'')) = Inr name
      \<and> generative_model w name system_instruction = Inr m
      \<and> start_chat w m = Inr chat
      \<and> (\<forall>s q. fst (send_message w s q) \<noteq> SendInterrupted)
      \<and> (\<forall>e\<in>set pre. keeps_running (unicode_lower w) e) \<longrightarrow>
        snd (main w (pre @ ev # rest)) = ExitCode 0
        \<and> last (fst (main w (pre @ ev # rest)))
            = Print (if ev = EndOfInput then [10] @ goodbye else goodbye)
        \<and> sends (fst (main w (pre @ ev # rest))) = dispatched pre)"
proof (intro impI)
  assume h: "ev = EndOfInput \<or> ev = Line raw \<and>
      lower (unicode_lower w) (strip raw) \<in> {ustr ''quit'', ustr ''exit''}"
  then have stop: "\<not> keeps_running (unicode_lower w) ev"
    by (auto simp: keeps_running_def)
  from h have bye: "(case ev of Line raw \<Rightarrow> goodbye | _ \<Rightarrow> [10] @ goodbye)
      = (if ev = EndOfInput then [10] @ goodbye else goodbye)"
    by auto
  have a: "chat_loop w chat (ev # rest) =
     ([Input question_prompt, Print (if ev = EndOfInput then [10] @ goodbye else goodbye)],
      chat, None)"
    using chat_loop_stops [OF stop, of chat rest] by (simp only: bye)
  have b: "chat_loop w chat [] = ([Input question_prompt, Print ([10] @ goodbye)], chat, None)"
    by (rule chat_loop_Nil)
  have c: "environ w (ustr ''GOOGLE_API_KEY'') = Some k \<and> k \<noteq> []
      \<and> snd (choose_model w (ustr ''gemini-flash-latest'')) = Inr name
      \<and> generative_model w name system_instruction = Inr m
      \<and> start_chat w m = Inr chat
      \<and> (\<forall>s q. fst (send_message w s q) \<noteq> SendInterrupted)
      \<and> (\<forall>e\<in>set pre. keeps_running (unicode_lower w) e) \<longrightarrow>
        snd (main w (pre @ ev # rest)) = ExitCode 0
        \<and> last (fst (main w (pre @ ev # rest)))
            = Print (if ev = EndOfInput then [10] @ goodbye else goodbye)
        \<and> sends (fst (main w (pre @ ev # rest))) = dispatched pre"
  proof (intro impI, elim conjE)
    assume "environ w (ustr ''GOOGLE_API_KEY'') = Some k" "k \<noteq> []"
      "snd (choose_model w (ustr ''gemini-flash-latest'')) = Inr name"
      "generative_model w name system_instruction = Inr m"
      "start_chat w m = Inr chat"
      "\<forall>s q. fst (send_message w s q) \<noteq> SendInterrupted"
      "\<forall>e\<in>set pre. keeps_running (unicode_lower w) e"
    from main_exit_after_prefix [OF this stop, of rest]
    show "snd (main w (pre @ ev # rest)) = ExitCode 0
        \<and> last (fst (main w (pre @ ev # rest)))
            = Print (if ev = EndOfInput then [10] @ goodbye else goodbye)
        \<and> sends (fst (main w (pre @ ev # rest))) = dispatched pre"
      by (simp only: bye)
  qed
  from a b c show "chat_loop w chat (ev # rest) =
     ([Input question_prompt, Print (if ev = EndOfInput then [10] @ goodbye else goodbye)],
      chat, None)
   \<and> chat_loop w chat [] = ([Input question_prompt, Print ([10] @ goodbye)], chat, None)
   \<and> (environ w (ustr ''GOOGLE_API_KEY'') = Some k \<and> k \<noteq> []
      \<and> snd (choose_model w (ustr ''gemini-flash-latest'')) = Inr name
      \<and> generative_model w name system_instruction = Inr m
      \<and> start_chat w m = Inr chat
      \<and> (\<forall>s q. fst (send_message w s q) \<noteq> SendInterrupted)
      \<and> (\<forall>e\<in>set pre. keeps_running (unicode_lower w) e) \<longrightarrow>
        snd (main w (pre @ ev # rest)) = ExitCode 0
        \<and> last (fst (main w (pre @ ev # rest)))
            = Print (if ev = EndOfInput then [10] @ goodbye else goodbye)
        \<and> sends (fst (main w (pre @ ev # rest))) = dispatched pre)"
    by blast
qed

theorem exit_command_ends_program_witness:
  "chat_loop (scripted_world [ustr ''GOOGLE_API_KEY'' \<mapsto> ustr ''k'']
       (Inr [ustr ''gemini-flash-latest'']) []) 0
     [Line (ustr ''  QUIT  ''), Line (ustr ''hi'')]
     = ([Input question_prompt, Print goodbye], 0, None)
   \<and> snd (main (scripted_world [ustr ''GOOGLE_API_KEY'' \<mapsto> ustr ''k'']
       (Inr [ustr ''gemini-flash-latest'']) [])
     [Line (ustr ''hi''), Line (ustr ''  QUIT  ''), Line (ustr ''hi'')]) = ExitCode 0
   \<and> sends (fst (main (scripted_world [ustr ''GOOGLE_API_KEY'' \<mapsto> ustr ''k'']
       (Inr [ustr ''gemini-flash-latest'']) [])
     [Line (ustr ''hi''), Line (ustr ''  QUIT  ''), Line (ustr ''hi'')])) = [ustr ''hi'']"
proof -
  let ?w = "scripted_world [ustr ''GOOGLE_API_KEY'' \<mapsto> ustr ''k'']
       (Inr [ustr ''gemini-flash-latest'']) []"
  let ?ev = "Line (ustr ''  QUIT  '')"
  have h: "?ev = EndOfInput \<or> ?ev = Line (ustr ''  QUIT  '') \<and>
      lower (unicode_lower ?w) (strip (ustr ''  QUIT  '')) \<in> {ustr ''quit'', ustr ''exit''}"
    by (simp add: exit_examples)
  note t = exit_command_ends_program [where ev = ?ev and raw = "ustr ''  QUIT  ''" and w = ?w,
      THEN mp, OF h]
  have a: "chat_loop ?w 0 [?ev, Line (ustr ''hi'')]
      = ([Input question_prompt, Print goodbye], 0, None)"
    using t [THEN conjunct1, of 0 "[Line (ustr ''hi'')]"] by simp
  have st: "environ ?w (ustr ''GOOGLE_API_KEY'') = Some (ustr ''k'') \<and> ustr ''k'' \<noteq> []
      \<and> snd (choose_model ?w (ustr ''gemini-flash-latest'')) = Inr (ustr ''gemini-flash-latest'')
      \<and> generative_model ?w (ustr ''gemini-flash-latest'') system_instruction = Inr ()
      \<and> start_chat ?w () = Inr 0
      \<and> (\<forall>s q. fst (send_message ?w s q) \<noteq> SendInterrupted)
      \<and> (\<forall>e\<in>set [Line (ustr ''hi'')]. keeps_running (unicode_lower ?w) e)"
    by (simp add: scripted_world_simps scripted_choose_latest scripted_send_not_interrupted
          keeps_running_hi) (simp add: ustr_def)
  from t [THEN conjunct2, THEN conjunct2, THEN mp, OF st, of "[Line (ustr ''hi'')]"]
  have b: "snd (main ?w [Line (ustr ''hi''), ?ev, Line (ustr ''hi'')]) = ExitCode 0
      \<and> sends (fst (main ?w [Line (ustr ''hi''), ?ev, Line (ustr ''hi'')])) = [ustr ''hi'']"
    by (simp add: dispatched_def strip_hi)
  from a b show ?thesis by simp
qed

section \<open>A failed send\<close>

lemma chat_loop_returns:
  assumes ni: "\<forall>s q. fst (send_message w s q) \<noteq> SendInterrupted"
  shows "snd (snd (chat_loop w chat ins)) = None"
proof -
  let ?P = "keeps_running (unicode_lower w)"
  have "\<forall>e\<in>set (takeWhile ?P ins). ?P e" by (auto dest: set_takeWhileD)
  from chat_loop_running_prefix [OF ni this, of chat "dropWhile ?P ins"]
  obtain evs chat' where
    l: "chat_loop w chat ins = (evs @ fst (chat_loop w chat' (dropWhile ?P ins)),
          snd (chat_loop w chat' (dropWhile ?P ins)))" by auto
  have "snd (snd (chat_loop w chat' (dropWhile ?P ins))) = None"
  proof (cases "dropWhile ?P ins")
    case Nil
    show ?thesis by (simp only: Nil chat_loop_Nil snd_conv)
  next
    case (Cons ev rest)
    then have "\<not> ?P ev" using hd_dropWhile [of ?P ins] by auto
    from chat_loop_stops [OF this] show ?thesis by (simp only: Cons snd_conv)
  qed
  with l show ?thesis by simp
qed

lemma scripted_started:
  "environ (scripted_world [ustr ''GOOGLE_API_KEY'' \<mapsto> ustr ''k'']
       (Inr [ustr ''gemini-flash-latest'']) outcomes) (ustr ''GOOGLE_API_KEY'') = Some (ustr ''k'')"
  "ustr ''k'' \<noteq> []"
  "generative_model (scripted_world [ustr ''GOOGLE_API_KEY'' \<mapsto> ustr ''k'']
       (Inr [ustr ''gemini-flash-latest'']) outcomes) (ustr ''gemini-flash-latest'')
       system_instruction = Inr ()"
  "start_chat (scripted_world [ustr ''GOOGLE_API_KEY'' \<mapsto> ustr ''k'']
       (Inr [ustr ''gemini-flash-latest'']) outcomes) () = Inr 0"
  by (simp_all add: scripted_world_simps) (simp add: ustr_def)

lemma loop_body_answered:
  "strip raw \<noteq> [] \<Longrightarrow> lower (unicode_lower w) (strip raw) \<notin> {ustr ''quit'', ustr ''exit''} \<Longrightarrow>
   send_message w chat (strip raw) = (Reply txt, chat') \<Longrightarrow>
   loop_body w chat (Line raw)
     = ([Input question_prompt, SendMessage (strip raw),
         Print ([10] @ ustr ''--- Answer ---''), Print (to_markdown txt),
         Print (ustr ''---------------'' @ [10])], chat', Continue)"
  by (simp add: loop_body_send)

lemma chat_loop_two_passes:
  assumes "loop_body w chat ev1 = (evs1, chat1, Continue)"
    and "loop_body w chat1 ev2 = (evs2, chat2, Continue)"
  shows "chat_loop w chat (ev1 # ev2 # rest)
    = (evs1 @ evs2 @ fst (chat_loop w chat2 rest), snd (chat_loop w chat2 rest))"
  by (simp only: chat_loop_Continue [OF assms(1)] chat_loop_Continue [OF assms(2)]
        fst_conv snd_conv)

text \<open>
  Claim C4. When the send of a turn raises an exception, be it in the call of
  \<open>send_message\<close> or in the read of the reply's text, the pass through the loop
  body reports it on the diagnostic stream and ends as every pass does: the loop
  goes on to the next input with the session it had (in the state the failed call
  left it in), and a question that follows is sent, its reply formatted and printed.
  When the program has started and no send is interrupted, the process exits with
  code 0 whatever sends fail.
\<close>

theorem send_failure_is_local:
  "(strip raw \<noteq> [] \<and> lower (unicode_lower w) (strip raw) \<notin> {ustr ''quit'', ustr ''exit''}
     \<and> send_message w chat (strip raw) = (SendRaises e, chat') \<longrightarrow>
     loop_body w chat (Line raw)
       = ([Input question_prompt, SendMessage (strip raw), PrintErr (send_error e)],
          chat', Continue)
     \<and> chat_loop w chat (Line raw # rest)
       = ([Input question_prompt, SendMessage (strip raw), PrintErr (send_error e)]
            @ fst (chat_loop w chat' rest), snd (chat_loop w chat' rest))
     \<and> (strip raw2 \<noteq> []
         \<and> lower (unicode_lower w) (strip raw2) \<notin> {ustr ''quit'', ustr ''exit''}
         \<and> send_message w chat' (strip raw2) = (Reply txt, chat'') \<longrightarrow>
         chat_loop w chat (Line raw # Line raw2 # rest)
           = ([Input question_prompt, SendMessage (strip raw), PrintErr (send_error e),
               Input question_prompt, SendMessage (strip raw2),
               Print ([10] @ ustr ''--- Answer ---''), Print (to_markdown txt),
               Print (ustr ''---------------'' @ [10])]
                @ fst (chat_loop w chat'' rest), snd (chat_loop w chat'' rest))))
   \<and> (strip raw \<noteq> [] \<and> lower (unicode_lower w) (strip raw) \<notin> {ustr ''quit'', ustr ''exit''}
     \<and> send_message w chat (strip raw) = (ReplyTextRaises e, chat') \<longrightarrow>
     loop_body w chat (Line raw)
       = ([Input question_prompt, SendMessage (strip raw),
           Print ([10] @ ustr ''--- Answer ---''), PrintErr (send_error e)],
          chat', Continue)
     \<and> chat_loop w chat (Line raw # rest)
       = ([Input question_prompt, SendMessage (strip raw),
           Print ([10] @ ustr ''--- Answer ---''), PrintErr (send_error e)]
            @ fst (chat_loop w chat' rest), snd (chat_loop w chat' rest))
     \<and> (strip raw2 \<noteq> []
         \<and> lower (unicode_lower w) (strip raw2) \<notin> {ustr ''quit'', ustr ''exit''}
         \<and> send_message w chat' (strip raw2) = (Reply txt, chat'') \<longrightarrow>
         chat_loop w chat (Line raw # Line raw2 # rest)
           = ([Input question_prompt, SendMessage (strip raw),
               Print ([10] @ ustr ''--- Answer ---''), PrintErr (send_error e),
               Input question_prompt, SendMessage (strip raw2),
               Print ([10] @ ustr ''--- Answer ---''), Print (to_markdown txt),
               Print (ustr ''---------------'' @ [10])]
                @ fst (chat_loop w chat'' rest), snd (chat_loop w chat'' rest))))
   \<and> (environ w (ustr ''GOOGLE_API_KEY'') = Some k \<and> k \<noteq> []
      \<and> snd (choose_model w (ustr ''gemini-flash-latest'')) = Inr name
      \<and> generative_model w name system_instruction = Inr m
      \<and> start_chat w m = Inr chat0
      \<and> (\<forall>s q. fst (send_message w s q) \<noteq> SendInterrupted) \<longrightarrow>
        snd (main w stdin) = ExitCode 0)"
proof (intro conjI impI; (elim conjE)?)
  assume ne: "strip raw \<noteq> []"
    and nx: "lower (unicode_lower w) (strip raw) \<notin> {ustr ''quit'', ustr ''exit''}"
    and s: "send_message w chat (strip raw) = (SendRaises e, chat')"
  show a: "loop_body w chat (Line raw)
       = ([Input question_prompt, SendMessage (strip raw), PrintErr (send_error e)],
          chat', Continue)"
    by (simp add: loop_body_send [OF ne nx] s)
  from chat_loop_Continue [OF a]
  show "chat_loop w chat (Line raw # rest)
       = ([Input question_prompt, SendMessage (strip raw), PrintErr (send_error e)]
            @ fst (chat_loop w chat' rest), snd (chat_loop w chat' rest))" .
  assume "strip raw2 \<noteq> []"
    "lower (unicode_lower w) (strip raw2) \<notin> {ustr ''quit'', ustr ''exit''}"
    "send_message w chat' (strip raw2) = (Reply txt, chat'')"
  from chat_loop_two_passes [OF a loop_body_answered [OF this], of rest]
  show "chat_loop w chat (Line raw # Line raw2 # rest)
           = ([Input question_prompt, SendMessage (strip raw), PrintErr (send_error e),
               Input question_prompt, SendMessage (strip raw2),
               Print ([10] @ ustr ''--- Answer ---''), Print (to_markdown txt),
               Print (ustr ''---------------'' @ [10])]
                @ fst (chat_loop w chat'' rest), snd (chat_loop w chat'' rest))"
    by simp
next
  assume ne: "strip raw \<noteq> []"
    and nx: "lower (unicode_lower w) (strip raw) \<notin> {ustr ''quit'', ustr ''exit''}"
    and s: "send_message w chat (strip raw) = (ReplyTextRaises e, chat')"
  show a: "loop_body w chat (Line raw)
       = ([Input question_prompt, SendMessage (strip raw),
           Print ([10] @ ustr ''--- Answer ---''), PrintErr (send_error e)],
          chat', Continue)"
    by (simp add: loop_body_send [OF ne nx] s)
  from chat_loop_Continue [OF a]
  show "chat_loop w chat (Line raw # rest)
       = ([Input question_prompt, SendMessage (strip raw),
           Print ([10] @ ustr ''--- Answer ---''), PrintErr (send_error e)]
            @ fst (chat_loop w chat' rest), snd (chat_loop w chat' rest))" .
  assume "strip raw2 \<noteq> []"
    "lower (unicode_lower w) (strip raw2) \<notin> {ustr ''quit'', ustr ''exit''}"
    "send_message w chat' (strip raw2) = (Reply txt, chat'')"
  from chat_loop_two_passes [OF a loop_body_answered [OF this], of rest]
  show "chat_loop w chat (Line raw # Line raw2 # rest)
           = ([Input question_prompt, SendMessage (strip raw),
               Print ([10] @ ustr ''--- Answer ---''), PrintErr (send_error e),
               Input question_prompt, SendMessage (strip raw2),
               Print ([10] @ ustr ''--- Answer ---''), Print (to_markdown txt),
               Print (ustr ''---------------'' @ [10])]
                @ fst (chat_loop w chat'' rest), snd (chat_loop w chat'' rest))"
    by simp
next
  assume st: "environ w (ustr ''GOOGLE_API_KEY'') = Some k" "k \<noteq> []"
      "snd (choose_model w (ustr ''gemini-flash-latest'')) = Inr name"
      "generative_model w name system_instruction = Inr m"
      "start_chat w m = Inr chat0"
    and ni: "\<forall>s q. fst (send_message w s q) \<noteq> SendInterrupted"
  show "snd (main w stdin) = ExitCode 0"
    by (simp add: main_after_startup [OF st] chat_loop_returns [OF ni])
qed

theorem send_failure_is_local_witness:
  "chat_loop (scripted_world [ustr ''GOOGLE_API_KEY'' \<mapsto> ustr ''k'']
       (Inr [ustr ''gemini-flash-latest'']) [SendRaises (ustr ''503'')]) 0
       [Line (ustr ''hi''), Line (ustr ''hi'')]
     = ([Input question_prompt, SendMessage (ustr ''hi''), PrintErr (send_error (ustr ''503'')),
         Input question_prompt, SendMessage (ustr ''hi''),
         Print ([10] @ ustr ''--- Answer ---''), Print (to_markdown (ustr ''hi'')),
         Print (ustr ''---------------'' @ [10]),
         Input question_prompt, Print ([10] @ goodbye)], 2, None)
   \<and> chat_loop (scripted_world [ustr ''GOOGLE_API_KEY'' \<mapsto> ustr ''k'']
       (Inr [ustr ''gemini-flash-latest'']) [ReplyTextRaises (ustr ''blocked'')]) 0
       [Line (ustr ''hi''), Line (ustr ''hi'')]
     = ([Input question_prompt, SendMessage (ustr ''hi''),
         Print ([10] @ ustr ''--- Answer ---''), PrintErr (send_error (ustr ''blocked'')),
         Input question_prompt, SendMessage (ustr ''hi''),
         Print ([10] @ ustr ''--- Answer ---''), Print (to_markdown (ustr ''hi'')),
         Print (ustr ''---------------'' @ [10]),
         Input question_prompt, Print ([10] @ goodbye)], 2, None)
   \<and> snd (main (scripted_world [ustr ''GOOGLE_API_KEY'' \<mapsto> ustr ''k'']
       (Inr [ustr ''gemini-flash-latest'']) [SendRaises (ustr ''503'')])
       [Line (ustr ''hi''), Line (ustr ''hi'')]) = ExitCode 0"
proof -
  let ?w = "scripted_world [ustr ''GOOGLE_API_KEY'' \<mapsto> ustr ''k'']
       (Inr [ustr ''gemini-flash-latest'']) [SendRaises (ustr ''503'')]"
  let ?v = "scripted_world [ustr ''GOOGLE_API_KEY'' \<mapsto> ustr ''k'']
       (Inr [ustr ''gemini-flash-latest'']) [ReplyTextRaises (ustr ''blocked'')]"
  have h: "strip (ustr ''hi'') \<noteq> []
     \<and> lower (unicode_lower ?w) (strip (ustr ''hi'')) \<notin> {ustr ''quit'', ustr ''exit''}
     \<and> send_message ?w 0 (strip (ustr ''hi'')) = (SendRaises (ustr ''503''), Suc 0)"
    using strip_hi by (simp add: scripted_world_simps scripted_send_def)
  have h2: "strip (ustr ''hi'') \<noteq> []
       \<and> lower (unicode_lower ?w) (strip (ustr ''hi'')) \<notin> {ustr ''quit'', ustr ''exit''}
       \<and> send_message ?w (Suc 0) (strip (ustr ''hi'')) = (Reply (ustr ''hi''), Suc (Suc 0))"
    using strip_hi by (simp add: scripted_world_simps scripted_send_def)
  from send_failure_is_local [where w = ?w and raw = "ustr ''hi''" and chat = 0
      and e = "ustr ''503''" and chat' = "Suc 0" and rest = "[]", THEN conjunct1, THEN mp, OF h,
      THEN conjunct2, THEN conjunct2, THEN mp, OF h2]
  have a: "chat_loop ?w 0 [Line (ustr ''hi''), Line (ustr ''hi'')]
     = ([Input question_prompt, SendMessage (ustr ''hi''), PrintErr (send_error (ustr ''503'')),
         Input question_prompt, SendMessage (ustr ''hi''),
         Print ([10] @ ustr ''--- Answer ---''), Print (to_markdown (ustr ''hi'')),
         Print (ustr ''---------------'' @ [10]),
         Input question_prompt, Print ([10] @ goodbye)], 2, None)"
    by (simp only: chat_loop_Nil strip_hi fst_conv snd_conv append.simps numeral_2_eq_2)
  have g: "strip (ustr ''hi'') \<noteq> []
     \<and> lower (unicode_lower ?v) (strip (ustr ''hi'')) \<notin> {ustr ''quit'', ustr ''exit''}
     \<and> send_message ?v 0 (strip (ustr ''hi'')) = (ReplyTextRaises (ustr ''blocked''), Suc 0)"
    using strip_hi by (simp add: scripted_world_simps scripted_send_def)
  have g2: "strip (ustr ''hi'') \<noteq> []
       \<and> lower (unicode_lower ?v) (strip (ustr ''hi'')) \<notin> {ustr ''quit'', ustr ''exit''}
       \<and> send_message ?v (Suc 0) (strip (ustr ''hi'')) = (Reply (ustr ''hi''), Suc (Suc 0))"
    using strip_hi by (simp add: scripted_world_simps scripted_send_def)
  from send_failure_is_local [where w = ?v and raw = "ustr ''hi''" and chat = 0
      and e = "ustr ''blocked''" and chat' = "Suc 0" and rest = "[]",
      THEN conjunct2, THEN conjunct1, THEN mp, OF g,
      THEN conjunct2, THEN conjunct2, THEN mp, OF g2]
  have b: "chat_loop ?v 0 [Line (ustr ''hi''), Line (ustr ''hi'')]
     = ([Input question_prompt, SendMessage (ustr ''hi''),
         Print ([10] @ ustr ''--- Answer ---''), PrintErr (send_error (ustr ''blocked'')),
         Input question_prompt, SendMessage (ustr ''hi''),
         Print ([10] @ ustr ''--- Answer ---''), Print (to_markdown (ustr ''hi'')),
         Print (ustr ''---------------'' @ [10]),
         Input question_prompt, Print ([10] @ goodbye)], 2, None)"
    by (simp only: chat_loop_Nil strip_hi fst_conv snd_conv append.simps numeral_2_eq_2)
  have st: "environ ?w (ustr ''GOOGLE_API_KEY'') = Some (ustr ''k'') \<and> ustr ''k'' \<noteq> []
      \<and> snd (choose_model ?w (ustr ''gemini-flash-latest'')) = Inr (ustr ''gemini-flash-latest'')
      \<and> generative_model ?w (ustr ''gemini-flash-latest'') system_instruction = Inr ()
      \<and> start_chat ?w () = Inr 0
      \<and> (\<forall>s q. fst (send_message ?w s q) \<noteq> SendInterrupted)"
    by (simp add: scripted_started scripted_choose_latest)
       (simp add: scripted_world_simps scripted_send_not_interrupted)
  from send_failure_is_local [where w = ?w, THEN conjunct2, THEN conjunct2, THEN mp, OF st]
  have c: "snd (main ?w [Line (ustr ''hi''), Line (ustr ''hi'')]) = ExitCode 0" .
  from a b c show ?thesis by blast
qed

section \<open>A missing credential\<close>

text \<open>
  Claim C10. When the credential variable is absent from the environment or holds the
  empty string, the program reports a configuration error on the diagnostic stream
  and exits with code 1; that report is its only event: it issues neither the model
  listing nor any send.
\<close>

theorem missing_credential_is_fatal:
  "environ w (ustr ''GOOGLE_API_KEY'') = None \<or> environ w (ustr ''GOOGLE_API_KEY'') = Some [] \<longrightarrow>
   main w stdin =
     ([PrintErr (ustr ''Configuration error: ''
        @ ustr ''GOOGLE_API_KEY not set. Set it in your environment or use a .env file.'')],
      ExitCode 1)
   \<and> ListModels \<notin> set (fst (main w stdin))
   \<and> sends (fst (main w stdin)) = []"
  by (auto simp: main_def configure_genai_def)

theorem missing_credential_is_fatal_witness:
  "snd (main (scripted_world Map.empty (Inr [ustr ''gemini-flash-latest'']) [])
        [Line (ustr ''hi'')]) = ExitCode 1
   \<and> ListModels \<notin> set (fst (main (scripted_world Map.empty
        (Inr [ustr ''gemini-flash-latest'']) []) [Line (ustr ''hi'')]))
   \<and> sends (fst (main (scripted_world Map.empty
        (Inr [ustr ''gemini-flash-latest'']) []) [Line (ustr ''hi'')])) = []
   \<and> main (scripted_world [ustr ''GOOGLE_API_KEY'' \<mapsto> []]
        (Inr [ustr ''gemini-flash-latest'']) []) [Line (ustr ''hi'')]
      = ([PrintErr (ustr ''Configuration error: ''
        @ ustr ''GOOGLE_API_KEY not set. Set it in your environment or use a .env file.'')],
      ExitCode 1)"
  using
    missing_credential_is_fatal [of "scripted_world Map.empty
        (Inr [ustr ''gemini-flash-latest'']) []" "[Line (ustr ''hi'')]"]
    missing_credential_is_fatal [of "scripted_world [ustr ''GOOGLE_API_KEY'' \<mapsto> []]
        (Inr [ustr ''gemini-flash-latest'']) []" "[Line (ustr ''hi'')]"]
  by (simp add: scripted_world_simps)

section \<open>Interrupts\<close>

lemma interrupt_at_input_ends_loop:
  "chat_loop w chat (Interrupt # rest)
     = ([Input question_prompt, Print ([10] @ goodbye)], chat, None)"
  by (simp add: loop_body_stop)

text \<open>
  Claim C6. An interrupt is to end the program gracefully, with exit code 0, at
  every point of the interaction loop, also while a send is in flight. With the
  program started, a provider whose first send is interrupted and the one question
  \<open>"hi"\<close> on standard input, the loop ends right after the send with
  \<open>KeyboardInterrupt\<close> raised and no farewell, and the process ends with that
  exception uncaught, not with exit code 0. The same program, interrupted while it
  awaits its first input, exits with code 0.
\<close>

theorem interrupt_in_flight_uncaught:
  "chat_loop (scripted_world [ustr ''GOOGLE_API_KEY'' \<mapsto> ustr ''k'']
       (Inr [ustr ''gemini-flash-latest'']) [SendInterrupted]) 0 [Line (ustr ''hi'')]
     = ([Input question_prompt, SendMessage (ustr ''hi'')], 1, Some KeyboardInterrupt)
   \<and> snd (main (scripted_world [ustr ''GOOGLE_API_KEY'' \<mapsto> ustr ''k'']
       (Inr [ustr ''gemini-flash-latest'']) [SendInterrupted]) [Line (ustr ''hi'')])
     = Uncaught KeyboardInterrupt
   \<and> snd (main (scripted_world [ustr ''GOOGLE_API_KEY'' \<mapsto> ustr ''k'']
       (Inr [ustr ''gemini-flash-latest'']) [SendInterrupted]) [Line (ustr ''hi'')])
     \<noteq> ExitCode 0
   \<and> snd (main (scripted_world [ustr ''GOOGLE_API_KEY'' \<mapsto> ustr ''k'']
       (Inr [ustr ''gemini-flash-latest'']) [SendInterrupted]) [Interrupt])
     = ExitCode 0"
proof -
  let ?w = "scripted_world [ustr ''GOOGLE_API_KEY'' \<mapsto> ustr ''k'']
       (Inr [ustr ''gemini-flash-latest'']) [SendInterrupted]"
  note st = scripted_started(1,2) scripted_choose_latest scripted_started(3,4)
  have ne: "strip (ustr ''hi'') \<noteq> []" by (simp add: strip_hi)
  have nx: "lower (unicode_lower ?w) (strip (ustr ''hi'')) \<notin> {ustr ''quit'', ustr ''exit''}"
    using strip_hi by (simp add: scripted_world_simps)
  have "loop_body ?w 0 (Line (ustr ''hi''))
      = ([Input question_prompt, SendMessage (ustr ''hi'')], Suc 0, Raise KeyboardInterrupt)"
    by (simp add: loop_body_send [OF ne nx] scripted_world_simps scripted_send_def strip_hi)
  from chat_loop_Raise [OF this, of "[]"]
  have a: "chat_loop ?w 0 [Line (ustr ''hi'')]
     = ([Input question_prompt, SendMessage (ustr ''hi'')], 1, Some KeyboardInterrupt)"
    by simp
  have b: "snd (main ?w [Line (ustr ''hi'')]) = Uncaught KeyboardInterrupt"
    by (simp only: main_after_startup [OF st] a snd_conv option.case)
  have c: "snd (main ?w [Interrupt]) = ExitCode 0"
    by (simp only: main_after_startup [OF st] interrupt_at_input_ends_loop snd_conv option.case)
  from a b c show ?thesis by simp
qed

end
